theory Spec2Isabelle
  imports Main "HOL-Library.Char_ord" "HOL-Library.List_Lexorder" "HOL-Library.AList"
begin

section \<open>OAuth2 login flow of package whoauth2: handler.go and the provider group\<close>

text \<open>
  The development embeds the current \<^verbatim>\<open>package whoauth2\<close> sources: the first
  document of \<^verbatim>\<open>src/handler.go\<close> (lines 1 to 279, \<^verbatim>\<open>ProviderHandler\<close>) and
  \<^verbatim>\<open>src/unnamed/part_000\<close> (\<^verbatim>\<open>ProviderGroup\<close>). The older
  \<^verbatim>\<open>package oauth2\<close> document that follows in \<^verbatim>\<open>src/handler.go\<close> differs in
  having no \<^verbatim>\<open>accessOffline\<close> flag and in \<^verbatim>\<open>Logout\<close> deleting every key and
  calling \<^verbatim>\<open>Save\<close>; it is not embedded.
\<close>

subsection \<open>Go library functions the handlers call\<close>

text \<open>
  \<^verbatim>\<open>strings.TrimRight(s, cutset)\<close>: \<^verbatim>\<open>s\<close> with all trailing bytes contained in
  \<^verbatim>\<open>cutset\<close> removed.
\<close>

definition TrimRight :: "string \<Rightarrow> string \<Rightarrow> string" where
  "TrimRight s cutset = rev (dropWhile (\<lambda>c. c \<in> set cutset) (rev s))"

text \<open>
  \<^verbatim>\<open>strconv.ParseBool\<close>: accepts 1, t, T, TRUE, true, True, 0, f, F, FALSE, false,
  False; any other string is a syntax error (\<open>None\<close>).
\<close>

definition ParseBool :: "string \<Rightarrow> bool option" where
  "ParseBool str =
     (if str \<in> set [''1'', ''t'', ''T'', ''true'', ''TRUE'', ''True''] then Some True
      else if str \<in> set [''0'', ''f'', ''F'', ''false'', ''FALSE'', ''False''] then Some False
      else None)"

text \<open>\<^verbatim>\<open>fmt.Sprint\<close> of a bool.\<close>

definition Sprint_bool :: "bool \<Rightarrow> string" where
  "Sprint_bool b = (if b then ''true'' else ''false'')"

text \<open>
  \<^verbatim>\<open>url.QueryEscape\<close>: letters, digits and \<^verbatim>\<open>- _ . ~\<close> are kept, a space
  becomes \<^verbatim>\<open>+\<close>, every other byte becomes \<^verbatim>\<open>%XX\<close> with upper-case hex digits.
\<close>

definition shouldEscape :: "char \<Rightarrow> bool" where
  "shouldEscape c =
     (if (CHR ''a'' \<le> c \<and> c \<le> CHR ''z'') \<or> (CHR ''A'' \<le> c \<and> c \<le> CHR ''Z'')
          \<or> (CHR ''0'' \<le> c \<and> c \<le> CHR ''9'') then False
      else if c \<in> set ''-_.~'' then False
      else True)"

definition upperhex :: string where
  "upperhex = ''0123456789ABCDEF''"

definition escape_byte :: "char \<Rightarrow> string" where
  "escape_byte c =
     (if c = CHR '' '' then ''+''
      else if shouldEscape c then
        [CHR ''%'', upperhex ! (of_char c div 16), upperhex ! (of_char c mod 16)]
      else [c])"

definition QueryEscape :: "string \<Rightarrow> string" where
  "QueryEscape s = concat (map escape_byte s)"

fun join :: "string list \<Rightarrow> string \<Rightarrow> string" where
  "join [] sep = []"
| "join [x] sep = x"
| "join (x # y # ys) sep = x @ sep @ join (y # ys) sep"

text \<open>
  \<^verbatim>\<open>url.Values.Encode\<close>: the keys are sorted, and every value of every key is
  written as \<^verbatim>\<open>key=value\<close>, both escaped, the pairs joined by \<^verbatim>\<open>&\<close>. The Go
  map literal is given as the list of its entries (keys distinct).
\<close>

definition Encode :: "(string \<times> string list) list \<Rightarrow> string" where
  "Encode v =
     join (concat (map (\<lambda>(k, vs). map (\<lambda>x. QueryEscape k @ ''='' @ QueryEscape x) vs)
                       (sort_key fst v))) ''&''"

text \<open>
  \<^verbatim>\<open>errors.ErrorGroup\<close> of spacemonkeygo/errors: \<^verbatim>\<open>Add\<close> ignores nil and
  appends any other error; \<^verbatim>\<open>Finalize\<close> is nil for no error, the error itself for
  one, and one error holding the whole group otherwise.
\<close>

datatype error =
    BadRequest string
  | OtherError string
  | ErrorGroupError "error list"

definition Add :: "error list \<Rightarrow> error option \<Rightarrow> error list" where
  "Add errs err = (case err of None \<Rightarrow> errs | Some e \<Rightarrow> errs @ [e])"

definition Finalize :: "error list \<Rightarrow> error option" where
  "Finalize errs =
     (case errs of [] \<Rightarrow> None | [e] \<Rightarrow> Some e | _ \<Rightarrow> Some (ErrorGroupError errs))"

subsection \<open>Data model\<close>

text \<open>
  Modelled from the spec: the declarations of \<^verbatim>\<open>Provider\<close> and
  \<^verbatim>\<open>RedirectURLs\<close> are not among the source files. A provider has a name and an
  OAuth2 client configuration that is opaque here; the redirect URLs are the two
  defaults the handlers read.
\<close>

record Provider =
  Name :: string
  Config :: string

record RedirectURLs =
  DefaultLoginURL :: string
  DefaultLogoutURL :: string

text \<open>
  \<^verbatim>\<open>oauth2.AccessTypeOnline\<close>, \<^verbatim>\<open>oauth2.AccessTypeOffline\<close> and
  \<^verbatim>\<open>oauth2.ApprovalForce\<close>.
\<close>

datatype AuthCodeOption = AccessTypeOnline | AccessTypeOffline | ApprovalForce

text \<open>
  A value of \<^verbatim>\<open>session.Values\<close> (an \<^verbatim>\<open>interface{}\<close>): a string, a
  \<^verbatim>\<open>*oauth2.Token\<close>, or a value of any other type. The tokens are a type parameter.
\<close>

datatype 'tok svalue = VString string | VToken 'tok | VOther

type_synonym 'tok session_values = "string \<rightharpoonup> 'tok svalue"

text \<open>The struct \<^verbatim>\<open>ProviderHandler\<close> (handler.go 38-45), without its router.\<close>

record ProviderHandler =
  provider :: Provider
  session_namespace :: string
  handler_base_url :: string
  urls :: RedirectURLs
  accessOffline :: bool

text \<open>
  The struct \<^verbatim>\<open>ProviderGroup\<close> (part_000 44-49), without its router. The Go map of
  handlers is the list of its entries, in the order a \<^verbatim>\<open>range\<close> loop visits them
  (any order: Go fixes none); the names of a map's entries are distinct.
\<close>

record ProviderGroup =
  handlers :: "(string \<times> ProviderHandler) list"
  group_urls :: RedirectURLs
  group_base_url :: string

text \<open>A request, as far as the handlers read it: its form values.\<close>

record Request =
  form :: "(string \<times> string) list"

text \<open>\<^verbatim>\<open>r.FormValue(key)\<close>: the first value of the key, the empty string without one.\<close>

definition FormValue :: "Request \<Rightarrow> string \<Rightarrow> string" where
  "FormValue r key = (case map_of (form r) key of None \<Rightarrow> [] | Some v \<Rightarrow> v)"

text \<open>What a handler writes: a redirect (\<^verbatim>\<open>whredir.Redirect\<close>) or an error
  (\<^verbatim>\<open>wherr.Handle\<close>).\<close>

datatype response = Redirect string | HandleError error

subsection \<open>The collaborators: session store, OAuth2 client, state generator\<close>

text \<open>
  The calls that leave the package are recorded in order: \<^verbatim>\<open>session.Save\<close> with
  the values it is given, \<^verbatim>\<open>session.Clear\<close>, and \<^verbatim>\<open>provider.Exchange\<close>.
\<close>

datatype 'tok call =
    CallSave string "'tok session_values"
  | CallClear string
  | CallExchange Provider string AuthCodeOption

text \<open>
  The world a request runs in: the values the session store holds for each namespace,
  and the calls made so far.
\<close>

record 'tok world =
  store :: "string \<Rightarrow> 'tok session_values"
  calls :: "'tok call list"

text \<open>
  What the collaborators answer is a parameter of every operation: whether loading,
  saving or clearing a namespace fails, what the provider answers to an exchange, the
  authorization URL it builds, \<^verbatim>\<open>token.Valid()\<close>, and the value \<^verbatim>\<open>newState()\<close>
  returns in this request (\<^verbatim>\<open>newState\<close> is not among the source files).
\<close>

record 'tok env =
  load_err :: "string \<Rightarrow> error option"
  save_err :: "string \<Rightarrow> 'tok session_values \<Rightarrow> error option"
  clear_err :: "string \<Rightarrow> error option"
  Exchange :: "Provider \<Rightarrow> string \<Rightarrow> AuthCodeOption \<Rightarrow> error + 'tok"
  AuthCodeURL :: "Provider \<Rightarrow> string \<Rightarrow> AuthCodeOption list \<Rightarrow> string"
  Valid :: "'tok \<Rightarrow> bool"
  newState :: string

text \<open>
  The session store's contract (\<^verbatim>\<open>whsess\<close>): a load answers the stored values of
  the namespace, a save that succeeds replaces them, a clear that succeeds empties them,
  and a failed call changes nothing.
\<close>

definition Save :: "'tok env \<Rightarrow> string \<Rightarrow> 'tok session_values \<Rightarrow> 'tok world
    \<Rightarrow> error option \<times> 'tok world" where
  "Save env ns vals w =
     (case save_err env ns vals of
        Some e \<Rightarrow> (Some e, w\<lparr>calls := calls w @ [CallSave ns vals]\<rparr>)
      | None \<Rightarrow> (None, w\<lparr>store := (store w)(ns := vals),
                            calls := calls w @ [CallSave ns vals]\<rparr>))"

definition Clear :: "'tok env \<Rightarrow> string \<Rightarrow> 'tok world \<Rightarrow> error option \<times> 'tok world" where
  "Clear env ns w =
     (case clear_err env ns of
        Some e \<Rightarrow> (Some e, w\<lparr>calls := calls w @ [CallClear ns]\<rparr>)
      | None \<Rightarrow> (None, w\<lparr>store := (store w)(ns := Map.empty),
                            calls := calls w @ [CallClear ns]\<rparr>))"

definition do_Exchange :: "'tok env \<Rightarrow> Provider \<Rightarrow> string \<Rightarrow> AuthCodeOption \<Rightarrow> 'tok world
    \<Rightarrow> (error + 'tok) \<times> 'tok world" where
  "do_Exchange env p code accessType w =
     (Exchange env p code accessType, w\<lparr>calls := calls w @ [CallExchange p code accessType]\<rparr>)"

subsection \<open>ProviderHandler (handler.go)\<close>

text \<open>\<^verbatim>\<open>NewProviderHandler\<close> (handler.go 50-68).\<close>

definition NewProviderHandler :: "Provider \<Rightarrow> string \<Rightarrow> string \<Rightarrow> RedirectURLs
    \<Rightarrow> ProviderHandler" where
  "NewProviderHandler p ns base u =
     (let u1 = (if DefaultLoginURL u = [] then u\<lparr>DefaultLoginURL := ''/''\<rparr> else u);
          u2 = (if DefaultLogoutURL u1 = [] then u1\<lparr>DefaultLogoutURL := ''/''\<rparr> else u1)
      in \<lparr>provider = p, session_namespace = ns, handler_base_url = TrimRight base ''/'',
          urls = u2, accessOffline = False\<rparr>)"

text \<open>\<^verbatim>\<open>RequestOfflineTokens\<close> (handler.go 72-74).\<close>

definition RequestOfflineTokens :: "ProviderHandler \<Rightarrow> ProviderHandler" where
  "RequestOfflineTokens h = h\<lparr>accessOffline := True\<rparr>"

text \<open>\<^verbatim>\<open>Session\<close> (handler.go 89-92): \<^verbatim>\<open>whsess.Load\<close> of the handler's namespace.\<close>

definition Session :: "'tok env \<Rightarrow> ProviderHandler \<Rightarrow> 'tok world \<Rightarrow> error + 'tok session_values" where
  "Session env h w =
     (case load_err env (session_namespace h) of
        Some e \<Rightarrow> Inl e
      | None \<Rightarrow> Inr (store w (session_namespace h)))"

text \<open>\<^verbatim>\<open>token\<close> (handler.go 100-107): the stored value must exist, be a token, and be
  valid; \<open>None\<close> is the nil result.\<close>

definition token :: "'tok env \<Rightarrow> 'tok session_values \<Rightarrow> 'tok option" where
  "token env session =
     (case session ''_token'' of
        Some (VToken t) \<Rightarrow> if Valid env t then Some t else None
      | _ \<Rightarrow> None)"

text \<open>\<^verbatim>\<open>Token\<close> (handler.go 77-83).\<close>

definition Token :: "'tok env \<Rightarrow> ProviderHandler \<Rightarrow> 'tok world \<Rightarrow> error + 'tok option" where
  "Token env h w =
     (case Session env h w of
        Inl err \<Rightarrow> Inl err
      | Inr session \<Rightarrow> Inr (token env session))"

text \<open>\<^verbatim>\<open>LoggedIn\<close> (handler.go 95-98): \<^verbatim>\<open>t != nil, err\<close>.\<close>

definition LoggedIn :: "'tok env \<Rightarrow> ProviderHandler \<Rightarrow> 'tok world \<Rightarrow> bool \<times> error option" where
  "LoggedIn env h w =
     (case Token env h w of
        Inl err \<Rightarrow> (False, Some err)
      | Inr t \<Rightarrow> (t \<noteq> None, None))"

text \<open>\<^verbatim>\<open>Logout\<close> (handler.go 112-119).\<close>

definition Logout :: "'tok env \<Rightarrow> ProviderHandler \<Rightarrow> 'tok world \<Rightarrow> error option \<times> 'tok world" where
  "Logout env h w =
     (case Session env h w of
        Inl err \<Rightarrow> (Some err, w)
      | Inr session \<Rightarrow> Clear env (session_namespace h) w)"

text \<open>\<^verbatim>\<open>LoginURL\<close> and \<^verbatim>\<open>LogoutURL\<close> (handler.go 125-137).\<close>

definition LoginURL :: "ProviderHandler \<Rightarrow> string \<Rightarrow> bool \<Rightarrow> string" where
  "LoginURL h redirect_to force_prompt =
     handler_base_url h @ ''/login?'' @
       Encode [(''redirect_to'', [redirect_to]), (''force_prompt'', [Sprint_bool force_prompt])]"

definition LogoutURL :: "ProviderHandler \<Rightarrow> string \<Rightarrow> string" where
  "LogoutURL h redirect_to =
     handler_base_url h @ ''/logout?'' @ Encode [(''redirect_to'', [redirect_to])]"

text \<open>\<^verbatim>\<open>login\<close> (handler.go 139-182).\<close>

definition login :: "'tok env \<Rightarrow> ProviderHandler \<Rightarrow> Request \<Rightarrow> 'tok world
    \<Rightarrow> response \<times> 'tok world" where
  "login env h r w =
     (case Session env h w of
        Inl err \<Rightarrow> (HandleError err, w)
      | Inr session \<Rightarrow>
          let redirect_to = (if FormValue r ''redirect_to'' = [] then DefaultLoginURL (urls h)
                             else FormValue r ''redirect_to'');
              force_prompt = (case ParseBool (FormValue r ''force_prompt'') of
                                None \<Rightarrow> False | Some b \<Rightarrow> b)
          in if \<not> force_prompt \<and> token env session \<noteq> None then (Redirect redirect_to, w)
             else
               let state = newState env;
                   session1 = session(''_state'' \<mapsto> VString state);
                   session2 = session1(''_redirect_to'' \<mapsto> VString redirect_to)
               in case Save env (session_namespace h) session2 w of
                    (Some err, w') \<Rightarrow> (HandleError err, w')
                  | (None, w') \<Rightarrow>
                      let opts = (if accessOffline h then [AccessTypeOffline]
                                  else [AccessTypeOnline]);
                          opts' = (if force_prompt then opts @ [ApprovalForce] else opts)
                      in (Redirect (AuthCodeURL env (provider h) state opts'), w'))"

text \<open>\<^verbatim>\<open>cb\<close> (handler.go 184-234).\<close>

definition cb :: "'tok env \<Rightarrow> ProviderHandler \<Rightarrow> Request \<Rightarrow> 'tok world
    \<Rightarrow> response \<times> 'tok world" where
  "cb env h r w =
     (case Session env h w of
        Inl err \<Rightarrow> (HandleError err, w)
      | Inr session \<Rightarrow>
          (case session ''_state'' of
             Some (VString existing_state) \<Rightarrow>
               (case session ''_redirect_to'' of
                  Some (VString redirect_to) \<Rightarrow>
                    if existing_state \<noteq> FormValue r ''state''
                    then (HandleError (BadRequest ''csrf detected''), w)
                    else
                      let accessType = (if accessOffline h then AccessTypeOffline
                                        else AccessTypeOnline)
                      in (case do_Exchange env (provider h) (FormValue r ''code'') accessType w of
                            (Inl err, w1) \<Rightarrow> (HandleError err, w1)
                          | (Inr tok, w1) \<Rightarrow>
                              (case Save env (session_namespace h)
                                      (session(''_token'' \<mapsto> VToken tok)) w1 of
                                 (Some err, w2) \<Rightarrow> (HandleError err, w2)
                               | (None, w2) \<Rightarrow> (Redirect redirect_to, w2)))
                | _ \<Rightarrow> (HandleError (BadRequest ''invalid redirect_to''), w))
           | _ \<Rightarrow> (HandleError (BadRequest ''invalid session storage state''), w)))"

text \<open>\<^verbatim>\<open>logout\<close> (handler.go 236-247).\<close>

definition logout :: "'tok env \<Rightarrow> ProviderHandler \<Rightarrow> Request \<Rightarrow> 'tok world
    \<Rightarrow> response \<times> 'tok world" where
  "logout env h r w =
     (case Logout env h w of
        (Some err, w') \<Rightarrow> (HandleError err, w')
      | (None, w') \<Rightarrow>
          (Redirect (if FormValue r ''redirect_to'' = [] then DefaultLogoutURL (urls h)
                     else FormValue r ''redirect_to''), w'))"

subsection \<open>ProviderGroup (part_000)\<close>

text \<open>
  \<^verbatim>\<open>NewProviderGroup\<close> (part_000 55-87). The loop over the providers carries the
  handlers registered so far; the two \<^verbatim>\<open>fmt.Errorf\<close> results are the two
  configuration errors.
\<close>

datatype config_error = EmptyProviderName | TwoProvidersGivenWithName string

fun NewProviderGroup_loop :: "string \<Rightarrow> string \<Rightarrow> RedirectURLs \<Rightarrow> Provider list
    \<Rightarrow> (string \<times> ProviderHandler) list \<Rightarrow> config_error + (string \<times> ProviderHandler) list" where
  "NewProviderGroup_loop ns base u [] hs = Inr hs"
| "NewProviderGroup_loop ns base u (p # ps) hs =
     (if Name p = [] then Inl EmptyProviderName
      else if map_of hs (Name p) \<noteq> None then Inl (TwoProvidersGivenWithName (Name p))
      else NewProviderGroup_loop ns base u ps
             (hs @ [(Name p, NewProviderHandler p (ns @ ''-'' @ Name p)
                                (base @ ''/'' @ Name p) u)]))"

definition NewProviderGroup :: "string \<Rightarrow> string \<Rightarrow> RedirectURLs \<Rightarrow> Provider list
    \<Rightarrow> config_error + ProviderGroup" where
  "NewProviderGroup session_ns base u providers =
     (let base' = TrimRight base ''/''
      in case NewProviderGroup_loop session_ns base' u providers [] of
           Inl e \<Rightarrow> Inl e
         | Inr hs \<Rightarrow> Inr \<lparr>handlers = hs, group_urls = u, group_base_url = base'\<rparr>)"

text \<open>\<^verbatim>\<open>Handler\<close> (part_000 103-107): the handler, nil (\<open>None\<close>) without one, and
  whether it exists.\<close>

definition Handler :: "ProviderGroup \<Rightarrow> string \<Rightarrow> ProviderHandler option \<times> bool" where
  "Handler g provider_name =
     (map_of (handlers g) provider_name, map_of (handlers g) provider_name \<noteq> None)"

text \<open>
  The group's \<^verbatim>\<open>LoginURL\<close> and \<^verbatim>\<open>LogoutURL\<close> (part_000 113-122) index the map
  and call the method on the result. For a name without an entry the result is a nil
  \<^verbatim>\<open>*ProviderHandler\<close>, and reading \<^verbatim>\<open>handler_base_url\<close> through it panics.
\<close>

datatype panic = NilPointerDereference

definition group_LoginURL :: "ProviderGroup \<Rightarrow> string \<Rightarrow> string \<Rightarrow> bool \<Rightarrow> panic + string" where
  "group_LoginURL g provider_name redirect_to force_prompt =
     (case map_of (handlers g) provider_name of
        None \<Rightarrow> Inl NilPointerDereference
      | Some h \<Rightarrow> Inr (LoginURL h redirect_to force_prompt))"

definition group_LogoutURL :: "ProviderGroup \<Rightarrow> string \<Rightarrow> string \<Rightarrow> panic + string" where
  "group_LogoutURL g provider_name redirect_to =
     (case map_of (handlers g) provider_name of
        None \<Rightarrow> Inl NilPointerDereference
      | Some h \<Rightarrow> Inr (LogoutURL h redirect_to))"

text \<open>
  \<^verbatim>\<open>Tokens\<close> (part_000 132-144): the loop over the handlers carries the result map
  (the list of its entries) and the error group.
\<close>

fun Tokens_loop :: "'tok env \<Rightarrow> 'tok world \<Rightarrow> (string \<times> ProviderHandler) list
    \<Rightarrow> (string \<times> 'tok) list \<Rightarrow> error list \<Rightarrow> (string \<times> 'tok) list \<times> error list" where
  "Tokens_loop env w [] rv errs = (rv, errs)"
| "Tokens_loop env w ((name, h) # hs) rv errs =
     (case Token env h w of
        Inl err \<Rightarrow> Tokens_loop env w hs rv (Add errs (Some err))
      | Inr None \<Rightarrow> Tokens_loop env w hs rv (Add errs None)
      | Inr (Some t) \<Rightarrow> Tokens_loop env w hs (AList.update name t rv) (Add errs None))"

definition Tokens :: "'tok env \<Rightarrow> ProviderGroup \<Rightarrow> 'tok world
    \<Rightarrow> (string \<times> 'tok) list \<times> error option" where
  "Tokens env g w =
     (case Tokens_loop env w (handlers g) [] [] of (rv, errs) \<Rightarrow> (rv, Finalize errs))"

text \<open>The group's \<^verbatim>\<open>LoggedIn\<close> (part_000 156-159): \<^verbatim>\<open>len(t) > 0, err\<close>.\<close>

definition group_LoggedIn :: "'tok env \<Rightarrow> ProviderGroup \<Rightarrow> 'tok world \<Rightarrow> bool \<times> error option" where
  "group_LoggedIn env g w = (case Tokens env g w of (t, err) \<Rightarrow> (0 < length t, err))"

subsection \<open>A concrete deployment\<close>

text \<open>
  One provider named demo behind \<^verbatim>\<open>/auth/demo\<close>, no default URLs configured. A
  token is a pair of an access token and the second it expires at; the clock reads 100.
  The provider exchanges the code ABC for a token that lasts and the code BRIEF for one
  that has already run out, and rejects every other code. The session store never fails.
\<close>

definition demo_provider :: Provider where
  "demo_provider = \<lparr>Name = ''demo'', Config = ''client-1''\<rparr>"

definition demo_urls :: RedirectURLs where
  "demo_urls = \<lparr>DefaultLoginURL = [], DefaultLogoutURL = []\<rparr>"

definition demo_handler :: ProviderHandler where
  "demo_handler = NewProviderHandler demo_provider ''sess-demo'' ''/auth/demo'' demo_urls"

definition demo_option :: "AuthCodeOption \<Rightarrow> string" where
  "demo_option a =
     (case a of AccessTypeOnline \<Rightarrow> ''&access_type=online''
      | AccessTypeOffline \<Rightarrow> ''&access_type=offline''
      | ApprovalForce \<Rightarrow> ''&approval_prompt=force'')"

definition demo_env :: "(string \<times> nat) env" where
  "demo_env =
     \<lparr>load_err = (\<lambda>ns. None),
      save_err = (\<lambda>ns vals. None),
      clear_err = (\<lambda>ns. None),
      Exchange = (\<lambda>p code a.
         if code = ''ABC'' then Inr (''token-ABC'', 3600)
         else if code = ''BRIEF'' then Inr (''token-BRIEF'', 5)
         else Inl (OtherError ''invalid_grant'')),
      AuthCodeURL = (\<lambda>p state opts.
         ''https://idp.example/auth?state='' @ state @ concat (map demo_option opts)),
      Valid = (\<lambda>t. fst t \<noteq> [] \<and> 100 < snd t),
      newState = ''S''\<rparr>"

text \<open>The world in which the demo namespace holds the given values and nothing was called.\<close>

definition demo_world :: "(string \<times> nat) session_values \<Rightarrow> (string \<times> nat) world" where
  "demo_world vals = \<lparr>store = (\<lambda>ns. Map.empty)(''sess-demo'' := vals), calls = []\<rparr>"

text \<open>
  The group of the demo provider and a second one, built under \<^verbatim>\<open>/auth/\<close> with
  the namespace prefix sess; a session store that fails to load the second namespace;
  and a world in which the first namespace holds a token that lasts and the second one
  that has run out.
\<close>

definition github_provider :: Provider where
  "github_provider = \<lparr>Name = ''github'', Config = ''client-2''\<rparr>"

definition demo_group :: ProviderGroup where
  "demo_group =
     \<lparr>handlers = [(''demo'', demo_handler),
                  (''github'', NewProviderHandler github_provider ''sess-github''
                                 ''/auth/github'' demo_urls)],
      group_urls = demo_urls, group_base_url = ''/auth''\<rparr>"

definition demo_env_down :: "(string \<times> nat) env" where
  "demo_env_down =
     demo_env\<lparr>load_err := (\<lambda>ns. if ns = ''sess-github''
                                then Some (OtherError ''session store down'') else None)\<rparr>"

definition group_world :: "(string \<times> nat) world" where
  "group_world =
     \<lparr>store = (\<lambda>ns. Map.empty)
        (''sess-demo'' := [''_token'' \<mapsto> VToken (''token-ABC'', 3600)],
         ''sess-github'' := [''_token'' \<mapsto> VToken (''token-old'', 50)]),
      calls = []\<rparr>"

section \<open>Properties\<close>

lemmas demo_defs = demo_provider_def demo_urls_def demo_handler_def demo_option_def demo_env_def
  demo_world_def NewProviderHandler_def TrimRight_def Session_def FormValue_def

lemma demo_Session: "Session demo_env demo_handler (demo_world v) = Inr v"
  by (simp add: demo_defs)

lemma demo_world_update:
  "(demo_world v)\<lparr>store := (store (demo_world v))(''sess-demo'' := v'), calls := cs\<rparr>
     = \<lparr>store = (\<lambda>ns. Map.empty)(''sess-demo'' := v'), calls = cs\<rparr>"
  "(demo_world v)\<lparr>calls := cs\<rparr> = \<lparr>store = (\<lambda>ns. Map.empty)(''sess-demo'' := v), calls = cs\<rparr>"
  "calls (demo_world v) = []"
  by (simp_all add: demo_world_def)

lemma demo_handler_fields:
  "session_namespace demo_handler = ''sess-demo''"
  "provider demo_handler = demo_provider"
  "accessOffline demo_handler = False"
  "urls demo_handler = \<lparr>DefaultLoginURL = ''/'', DefaultLogoutURL = ''/''\<rparr>"
  "handler_base_url demo_handler = ''/auth/demo''"
  by (simp_all add: demo_defs)

subsection \<open>The stored token\<close>

lemma token_Some_iff:
  "token env session = Some t \<longleftrightarrow> session ''_token'' = Some (VToken t) \<and> Valid env t"
  by (auto simp: token_def split: option.splits svalue.splits)

lemma token_None_iff:
  "token env session = None \<longleftrightarrow> (\<forall>t. session ''_token'' = Some (VToken t) \<longrightarrow> \<not> Valid env t)"
  by (auto simp: token_def split: option.splits svalue.splits)

subsection \<open>login\<close>

lemma login_short:
  assumes "Session env h w = Inr session"
    and "ParseBool (FormValue r ''force_prompt'') \<noteq> Some True"
    and "token env session \<noteq> None"
  shows "login env h r w =
           (Redirect (if FormValue r ''redirect_to'' = [] then DefaultLoginURL (urls h)
                      else FormValue r ''redirect_to''), w)"
  using assms by (auto simp: login_def Let_def split: option.splits)

lemma login_long:
  assumes "Session env h w = Inr session"
    and "ParseBool (FormValue r ''force_prompt'') = Some True \<or> token env session = None"
    and "redirect_to = (if FormValue r ''redirect_to'' = [] then DefaultLoginURL (urls h)
                        else FormValue r ''redirect_to'')"
    and "session' = session(''_state'' \<mapsto> VString (newState env),
                            ''_redirect_to'' \<mapsto> VString redirect_to)"
  shows "login env h r w =
           (case save_err env (session_namespace h) session' of
              Some err \<Rightarrow>
                (HandleError err, w\<lparr>calls := calls w @ [CallSave (session_namespace h) session']\<rparr>)
            | None \<Rightarrow>
                (Redirect (AuthCodeURL env (provider h) (newState env)
                   ((if accessOffline h then [AccessTypeOffline] else [AccessTypeOnline]) @
                    (if ParseBool (FormValue r ''force_prompt'') = Some True
                     then [ApprovalForce] else []))),
                 w\<lparr>store := (store w)(session_namespace h := session'),
                   calls := calls w @ [CallSave (session_namespace h) session']\<rparr>))"
  using assms by (auto simp: login_def Let_def Save_def split: option.splits)

text \<open>
  Claim C2. When the session loads, a \<^verbatim>\<open>login\<close> whose \<^verbatim>\<open>force_prompt\<close> is not
  true, on a session whose \<^verbatim>\<open>_token\<close> is a token that is valid, answers a redirect
  to the target (\<^verbatim>\<open>redirect_to\<close>, or \<^verbatim>\<open>DefaultLoginURL\<close> when that is empty) and
  leaves the world as it was: nothing is written to the session, nothing is saved, no
  call is made. When the session holds no valid token (none, one of another type, or one
  that is not valid), \<^verbatim>\<open>LoggedIn\<close> is false and \<^verbatim>\<open>login\<close> does not take the
  short cut: it calls \<^verbatim>\<open>Save\<close> with \<^verbatim>\<open>_state\<close> and \<^verbatim>\<open>_redirect_to\<close> written.
\<close>

theorem login_short_circuit:
  assumes "Session env h w = Inr session"
  shows "(ParseBool (FormValue r ''force_prompt'') \<noteq> Some True \<longrightarrow>
            session ''_token'' = Some (VToken t) \<longrightarrow> Valid env t \<longrightarrow>
            login env h r w =
              (Redirect (if FormValue r ''redirect_to'' = [] then DefaultLoginURL (urls h)
                         else FormValue r ''redirect_to''), w))
       \<and> ((\<forall>t. session ''_token'' = Some (VToken t) \<longrightarrow> \<not> Valid env t) \<longrightarrow>
            LoggedIn env h w = (False, None)
            \<and> calls (snd (login env h r w)) =
                calls w @ [CallSave (session_namespace h)
                  (session(''_state'' \<mapsto> VString (newState env),
                           ''_redirect_to'' \<mapsto> VString
                              (if FormValue r ''redirect_to'' = [] then DefaultLoginURL (urls h)
                               else FormValue r ''redirect_to'')))])"
proof (intro conjI impI)
  assume "ParseBool (FormValue r ''force_prompt'') \<noteq> Some True"
    and "session ''_token'' = Some (VToken t)" and "Valid env t"
  then show "login env h r w =
              (Redirect (if FormValue r ''redirect_to'' = [] then DefaultLoginURL (urls h)
                         else FormValue r ''redirect_to''), w)"
    using login_short [OF assms, of r] by (simp add: token_def)
next
  assume "\<forall>t. session ''_token'' = Some (VToken t) \<longrightarrow> \<not> Valid env t"
  then have n: "token env session = None"
    by (simp add: token_None_iff)
  show "LoggedIn env h w = (False, None)"
    using assms n by (simp add: LoggedIn_def Token_def)
  show "calls (snd (login env h r w)) =
                calls w @ [CallSave (session_namespace h)
                  (session(''_state'' \<mapsto> VString (newState env),
                           ''_redirect_to'' \<mapsto> VString
                              (if FormValue r ''redirect_to'' = [] then DefaultLoginURL (urls h)
                               else FormValue r ''redirect_to'')))]"
    using login_long [OF assms, of r _ _, OF _ refl refl] n
    by (simp split: option.splits)
qed

theorem login_short_circuit_witness:
  "login demo_env demo_handler \<lparr>form = [(''redirect_to'', ''/home'')]\<rparr>
      (demo_world [''_token'' \<mapsto> VToken (''token-ABC'', 3600)])
     = (Redirect ''/home'', demo_world [''_token'' \<mapsto> VToken (''token-ABC'', 3600)])
   \<and> LoggedIn demo_env demo_handler (demo_world [''_token'' \<mapsto> VToken (''token-old'', 50)])
     = (False, None)
   \<and> calls (snd (login demo_env demo_handler \<lparr>form = [(''redirect_to'', ''/home'')]\<rparr>
              (demo_world [''_token'' \<mapsto> VToken (''token-old'', 50)])))
     = [CallSave ''sess-demo''
         [''_token'' \<mapsto> VToken (''token-old'', 50), ''_state'' \<mapsto> VString ''S'',
          ''_redirect_to'' \<mapsto> VString ''/home'']]"
proof -
  let ?r = "\<lparr>form = [(''redirect_to'', ''/home'')]\<rparr>"
  let ?v = "[''_token'' \<mapsto> VToken (''token-ABC'', 3600)] :: (string \<times> nat) session_values"
  let ?u = "[''_token'' \<mapsto> VToken (''token-old'', 50)] :: (string \<times> nat) session_values"
  have a: "ParseBool (FormValue ?r ''force_prompt'') \<noteq> Some True"
    by (simp add: FormValue_def ParseBool_def)
  have b: "Valid demo_env (''token-ABC'', 3600)"
    by (simp add: demo_env_def)
  have c: "\<forall>t. ?u ''_token'' = Some (VToken t) \<longrightarrow> \<not> Valid demo_env t"
    by (simp add: demo_env_def)
  show ?thesis
    using login_short_circuit [OF demo_Session [of ?v], where r = ?r and t = "(''token-ABC'', 3600)"]
      login_short_circuit [OF demo_Session [of ?u], where r = ?r] a b c
    by (simp add: demo_defs)
qed

text \<open>
  Claim C3. When the session loads and \<^verbatim>\<open>login\<close> does not take the short cut
  (\<^verbatim>\<open>force_prompt\<close> parses as true, or the session holds no valid token), it writes
  the value of \<^verbatim>\<open>newState()\<close> under \<^verbatim>\<open>_state\<close> and the target
  (\<^verbatim>\<open>redirect_to\<close>, or \<^verbatim>\<open>DefaultLoginURL\<close> when that is empty) under
  \<^verbatim>\<open>_redirect_to\<close>, and calls \<^verbatim>\<open>Save\<close> with these values. When the save
  succeeds the answer is a redirect to \<^verbatim>\<open>AuthCodeURL\<close> of that state, with the
  offline access type exactly when \<^verbatim>\<open>accessOffline\<close> is set and the online one
  otherwise, followed by \<^verbatim>\<open>ApprovalForce\<close> exactly when \<^verbatim>\<open>force_prompt\<close> is
  true; when the save fails its error is the answer.
\<close>

theorem login_begins_flow:
  assumes "Session env h w = Inr session"
    and "force_prompt = (ParseBool (FormValue r ''force_prompt'') = Some True)"
    and "force_prompt \<or> token env session = None"
    and "redirect_to = (if FormValue r ''redirect_to'' = [] then DefaultLoginURL (urls h)
                        else FormValue r ''redirect_to'')"
    and "session' = session(''_state'' \<mapsto> VString (newState env),
                            ''_redirect_to'' \<mapsto> VString redirect_to)"
  shows "login env h r w =
           (case save_err env (session_namespace h) session' of
              Some err \<Rightarrow>
                (HandleError err, w\<lparr>calls := calls w @ [CallSave (session_namespace h) session']\<rparr>)
            | None \<Rightarrow>
                (Redirect (AuthCodeURL env (provider h) (newState env)
                   ((if accessOffline h then [AccessTypeOffline] else [AccessTypeOnline]) @
                    (if force_prompt then [ApprovalForce] else []))),
                 w\<lparr>store := (store w)(session_namespace h := session'),
                   calls := calls w @ [CallSave (session_namespace h) session']\<rparr>))"
  using login_long [OF assms(1) _ assms(4) assms(5)] assms(2,3) by simp

theorem login_begins_flow_witness:
  "login demo_env demo_handler \<lparr>form = []\<rparr> (demo_world Map.empty)
     = (Redirect ''https://idp.example/auth?state=S&access_type=online'',
        \<lparr>store = (\<lambda>ns. Map.empty)(''sess-demo'' :=
                    [''_state'' \<mapsto> VString ''S'', ''_redirect_to'' \<mapsto> VString ''/'']),
         calls = [CallSave ''sess-demo''
                    [''_state'' \<mapsto> VString ''S'', ''_redirect_to'' \<mapsto> VString ''/'']]\<rparr>)
   \<and> fst (login demo_env (RequestOfflineTokens demo_handler)
            \<lparr>form = [(''redirect_to'', ''/home''), (''force_prompt'', ''1'')]\<rparr>
            (demo_world [''_token'' \<mapsto> VToken (''token-ABC'', 3600)]))
     = Redirect ''https://idp.example/auth?state=S&access_type=offline&approval_prompt=force''"
proof -
  let ?r = "\<lparr>form = []\<rparr>"
  let ?q = "\<lparr>form = [(''redirect_to'', ''/home''), (''force_prompt'', ''1'')]\<rparr>"
  let ?v = "[''_token'' \<mapsto> VToken (''token-ABC'', 3600)] :: (string \<times> nat) session_values"
  have s: "Session demo_env (RequestOfflineTokens demo_handler) (demo_world ?v) = Inr ?v"
    by (simp add: demo_defs RequestOfflineTokens_def)
  have a: "False \<or> token demo_env (Map.empty :: (string \<times> nat) session_values) = None"
    by (simp add: token_def)
  have b: "True \<or> token demo_env ?v = None"
    by simp
  show ?thesis
    using login_begins_flow [OF demo_Session _ a refl refl, where r = ?r]
      login_begins_flow [OF s _ b refl refl, where r = ?q]
    by (simp add: demo_defs ParseBool_def RequestOfflineTokens_def)
qed

text \<open>
  Claim C10. A \<^verbatim>\<open>login\<close> request without a \<^verbatim>\<open>force_prompt\<close> parameter, or
  with one that \<^verbatim>\<open>ParseBool\<close> rejects, has the result and the effects of the same
  request with \<^verbatim>\<open>force_prompt=false\<close>.
\<close>

theorem login_force_prompt_default:
  assumes "map_of (form r) ''force_prompt'' = None
           \<or> ParseBool (FormValue r ''force_prompt'') = None"
  shows "login env h r w = login env h (r\<lparr>form := (''force_prompt'', ''false'') # form r\<rparr>) w"
proof -
  have p: "ParseBool (FormValue r ''force_prompt'') = None"
    using assms by (auto simp: FormValue_def ParseBool_def)
  have f: "FormValue (r\<lparr>form := (''force_prompt'', ''false'') # form r\<rparr>) ''redirect_to''
             = FormValue r ''redirect_to''"
    by (simp add: FormValue_def)
  have q: "ParseBool (FormValue (r\<lparr>form := (''force_prompt'', ''false'') # form r\<rparr>)
             ''force_prompt'') = Some False"
    by (simp add: FormValue_def ParseBool_def)
  show ?thesis
    by (cases "Session env h w") (simp_all add: login_def f p q)
qed

theorem login_force_prompt_default_witness:
  "ParseBool (FormValue \<lparr>form = [(''force_prompt'', ''yes'')]\<rparr> ''force_prompt'') = None
   \<and> login demo_env demo_handler \<lparr>form = [(''force_prompt'', ''yes'')]\<rparr>
        (demo_world [''_token'' \<mapsto> VToken (''token-ABC'', 3600)])
     = login demo_env demo_handler
        \<lparr>form = [(''force_prompt'', ''false''), (''force_prompt'', ''yes'')]\<rparr>
        (demo_world [''_token'' \<mapsto> VToken (''token-ABC'', 3600)])
   \<and> login demo_env demo_handler \<lparr>form = []\<rparr> (demo_world Map.empty)
     = login demo_env demo_handler \<lparr>form = [(''force_prompt'', ''false'')]\<rparr>
        (demo_world Map.empty)"
proof -
  have p: "ParseBool (FormValue \<lparr>form = [(''force_prompt'', ''yes'')]\<rparr> ''force_prompt'') = None"
    by (simp add: FormValue_def ParseBool_def)
  have a: "map_of (form \<lparr>form = []\<rparr>) ''force_prompt'' = None"
    by simp
  show ?thesis
    using p
      login_force_prompt_default [of "\<lparr>form = [(''force_prompt'', ''yes'')]\<rparr>" demo_env
        demo_handler "demo_world [''_token'' \<mapsto> VToken (''token-ABC'', 3600)]", OF disjI2, OF p]
      login_force_prompt_default [of "\<lparr>form = []\<rparr>" demo_env demo_handler
        "demo_world Map.empty", OF disjI1, OF a]
    by simp
qed

subsection \<open>cb\<close>

text \<open>
  Claim C1, with the messages of the code. When the session loads, \<^verbatim>\<open>cb\<close> checks in
  this order: a \<^verbatim>\<open>_state\<close> that is missing or not a string is the bad request
  "invalid session storage state", whatever else holds; otherwise a \<^verbatim>\<open>_redirect_to\<close>
  that is missing or not a string is the bad request "invalid redirect_to"; otherwise a
  \<^verbatim>\<open>state\<close> parameter different from the stored \<^verbatim>\<open>_state\<close> is the bad request
  "csrf detected". In each case the world is unchanged: no exchange is called, nothing
  is saved, the stored values are as before.
\<close>

theorem cb_rejects_in_order:
  assumes "Session env h w = Inr session"
  shows "((\<forall>s. session ''_state'' \<noteq> Some (VString s)) \<longrightarrow>
           cb env h r w = (HandleError (BadRequest ''invalid session storage state''), w))
       \<and> (session ''_state'' = Some (VString s) \<longrightarrow>
             (\<forall>t. session ''_redirect_to'' \<noteq> Some (VString t)) \<longrightarrow>
           cb env h r w = (HandleError (BadRequest ''invalid redirect_to''), w))
       \<and> (session ''_state'' = Some (VString s) \<longrightarrow>
             session ''_redirect_to'' = Some (VString t) \<longrightarrow>
             FormValue r ''state'' \<noteq> s \<longrightarrow>
           cb env h r w = (HandleError (BadRequest ''csrf detected''), w))"
  using assms
  by (auto simp: cb_def split: option.splits svalue.splits)

theorem cb_rejects_in_order_witness:
  "cb demo_env demo_handler \<lparr>form = [(''state'', ''S''), (''code'', ''ABC'')]\<rparr>
      (demo_world [''_redirect_to'' \<mapsto> VString ''/home''])
     = (HandleError (BadRequest ''invalid session storage state''),
        demo_world [''_redirect_to'' \<mapsto> VString ''/home''])
   \<and> cb demo_env demo_handler \<lparr>form = [(''state'', ''S''), (''code'', ''ABC'')]\<rparr>
      (demo_world [''_state'' \<mapsto> VString ''S'', ''_redirect_to'' \<mapsto> VOther])
     = (HandleError (BadRequest ''invalid redirect_to''),
        demo_world [''_state'' \<mapsto> VString ''S'', ''_redirect_to'' \<mapsto> VOther])
   \<and> cb demo_env demo_handler \<lparr>form = [(''state'', ''X''), (''code'', ''ABC'')]\<rparr>
      (demo_world [''_state'' \<mapsto> VString ''S'', ''_redirect_to'' \<mapsto> VString ''/home''])
     = (HandleError (BadRequest ''csrf detected''),
        demo_world [''_state'' \<mapsto> VString ''S'', ''_redirect_to'' \<mapsto> VString ''/home''])"
proof -
  let ?r = "\<lparr>form = [(''state'', ''S''), (''code'', ''ABC'')]\<rparr>"
  let ?rx = "\<lparr>form = [(''state'', ''X''), (''code'', ''ABC'')]\<rparr>"
  let ?v1 = "[''_redirect_to'' \<mapsto> VString ''/home''] :: (string \<times> nat) session_values"
  let ?v2 = "[''_state'' \<mapsto> VString ''S'', ''_redirect_to'' \<mapsto> VOther]
               :: (string \<times> nat) session_values"
  let ?v3 = "[''_state'' \<mapsto> VString ''S'', ''_redirect_to'' \<mapsto> VString ''/home'']
               :: (string \<times> nat) session_values"
  show ?thesis
    using cb_rejects_in_order [OF demo_Session [of ?v1],
        where r = ?r and s = "''S''" and t = "''/home''"]
      cb_rejects_in_order [OF demo_Session [of ?v2],
        where r = ?r and s = "''S''" and t = "''/home''"]
      cb_rejects_in_order [OF demo_Session [of ?v3],
        where r = ?rx and s = "''S''" and t = "''/home''"]
    by (simp add: FormValue_def)
qed

text \<open>
  The messages of the second and third rejection are not "invalid redirect target" and
  "CSRF detected".
\<close>

theorem cb_messages_counterexample:
  "fst (cb demo_env demo_handler \<lparr>form = [(''state'', ''S''), (''code'', ''ABC'')]\<rparr>
          (demo_world [''_state'' \<mapsto> VString ''S'']))
     = HandleError (BadRequest ''invalid redirect_to'')
   \<and> fst (cb demo_env demo_handler \<lparr>form = [(''state'', ''S''), (''code'', ''ABC'')]\<rparr>
          (demo_world [''_state'' \<mapsto> VString ''S'']))
     \<noteq> HandleError (BadRequest ''invalid redirect target'')
   \<and> fst (cb demo_env demo_handler \<lparr>form = [(''state'', ''X''), (''code'', ''ABC'')]\<rparr>
          (demo_world [''_state'' \<mapsto> VString ''S'', ''_redirect_to'' \<mapsto> VString ''/home'']))
     = HandleError (BadRequest ''csrf detected'')
   \<and> fst (cb demo_env demo_handler \<lparr>form = [(''state'', ''X''), (''code'', ''ABC'')]\<rparr>
          (demo_world [''_state'' \<mapsto> VString ''S'', ''_redirect_to'' \<mapsto> VString ''/home'']))
     \<noteq> HandleError (BadRequest ''CSRF detected'')"
  by (simp add: cb_def demo_defs)

lemma cb_pass:
  assumes "Session env h w = Inr session"
    and "session ''_state'' = Some (VString s)"
    and "session ''_redirect_to'' = Some (VString redirect_to)"
    and "FormValue r ''state'' = s"
    and "accessType = (if accessOffline h then AccessTypeOffline else AccessTypeOnline)"
    and "w1 = w\<lparr>calls := calls w @ [CallExchange (provider h) (FormValue r ''code'') accessType]\<rparr>"
  shows "cb env h r w =
     (case Exchange env (provider h) (FormValue r ''code'') accessType of
        Inl err \<Rightarrow> (HandleError err, w1)
      | Inr tok \<Rightarrow>
         (case save_err env (session_namespace h) (session(''_token'' \<mapsto> VToken tok)) of
            Some err \<Rightarrow> (HandleError err,
               w1\<lparr>calls := calls w1 @ [CallSave (session_namespace h) (session(''_token'' \<mapsto> VToken tok))]\<rparr>)
          | None \<Rightarrow> (Redirect redirect_to,
               w1\<lparr>store := (store w)(session_namespace h := session(''_token'' \<mapsto> VToken tok)),
                   calls := calls w1 @ [CallSave (session_namespace h) (session(''_token'' \<mapsto> VToken tok))]\<rparr>)))"
  using assms
  by (auto simp: cb_def do_Exchange_def Save_def Let_def split: sum.splits option.splits)

lemma Session_Inr_iff:
  "Session env h w = Inr session \<longleftrightarrow>
     load_err env (session_namespace h) = None \<and> session = store w (session_namespace h)"
  by (auto simp: Session_def split: option.splits)

lemma LoggedIn_after_save:
  assumes "load_err env (session_namespace h) = None"
    and "store w' (session_namespace h) = session(''_token'' \<mapsto> VToken tok)"
  shows "LoggedIn env h w' = (Valid env tok, None)"
  using assms by (simp add: LoggedIn_def Token_def Session_def token_def)

text \<open>
  Claim C4, with the validity of the credential spelled out. When the session loads and
  the three checks pass, \<^verbatim>\<open>cb\<close> calls \<^verbatim>\<open>Exchange\<close> with the code and the
  access type \<^verbatim>\<open>login\<close> uses (offline exactly when \<^verbatim>\<open>accessOffline\<close> is set).
  When the exchange fails its error is the answer, and the exchange is the only call:
  nothing is written, nothing is saved. When it succeeds the token is written under
  \<^verbatim>\<open>_token\<close> and \<^verbatim>\<open>Save\<close> is called with these values; when that save succeeds
  the answer is a redirect to the stored \<^verbatim>\<open>_redirect_to\<close>, the store holds the new
  values, and \<^verbatim>\<open>LoggedIn\<close> on the world that results is true exactly when
  \<^verbatim>\<open>Valid\<close> holds of the token the exchange returned.
\<close>

theorem cb_completes_flow:
  assumes "Session env h w = Inr session"
    and "session ''_state'' = Some (VString s)"
    and "session ''_redirect_to'' = Some (VString redirect_to)"
    and "FormValue r ''state'' = s"
    and "accessType = (if accessOffline h then AccessTypeOffline else AccessTypeOnline)"
    and "code = FormValue r ''code''"
  shows "(Exchange env (provider h) code accessType = Inl err \<longrightarrow>
            cb env h r w =
              (HandleError err, w\<lparr>calls := calls w @ [CallExchange (provider h) code accessType]\<rparr>))
       \<and> (Exchange env (provider h) code accessType = Inr tok \<longrightarrow>
            save_err env (session_namespace h) (session(''_token'' \<mapsto> VToken tok)) = None \<longrightarrow>
            cb env h r w =
              (Redirect redirect_to,
               w\<lparr>store := (store w)(session_namespace h := session(''_token'' \<mapsto> VToken tok)),
                 calls := calls w @ [CallExchange (provider h) code accessType,
                    CallSave (session_namespace h) (session(''_token'' \<mapsto> VToken tok))]\<rparr>)
            \<and> LoggedIn env h (snd (cb env h r w)) = (Valid env tok, None))"
proof -
  have l: "load_err env (session_namespace h) = None"
    using assms(1) by (simp add: Session_Inr_iff)
  show ?thesis
    using cb_pass [OF assms(1-5) refl] assms(6) l
    by (auto simp: LoggedIn_after_save)
qed

theorem cb_completes_flow_witness:
  "cb demo_env demo_handler \<lparr>form = [(''state'', ''S''), (''code'', ''ABC'')]\<rparr>
      (demo_world [''_state'' \<mapsto> VString ''S'', ''_redirect_to'' \<mapsto> VString ''/''])
     = (Redirect ''/'',
        \<lparr>store = (\<lambda>ns. Map.empty)(''sess-demo'' :=
            [''_state'' \<mapsto> VString ''S'', ''_redirect_to'' \<mapsto> VString ''/'',
             ''_token'' \<mapsto> VToken (''token-ABC'', 3600)]),
         calls = [CallExchange demo_provider ''ABC'' AccessTypeOnline,
                  CallSave ''sess-demo''
                    [''_state'' \<mapsto> VString ''S'', ''_redirect_to'' \<mapsto> VString ''/'',
                     ''_token'' \<mapsto> VToken (''token-ABC'', 3600)]]\<rparr>)
   \<and> LoggedIn demo_env demo_handler
        (snd (cb demo_env demo_handler \<lparr>form = [(''state'', ''S''), (''code'', ''ABC'')]\<rparr>
           (demo_world [''_state'' \<mapsto> VString ''S'', ''_redirect_to'' \<mapsto> VString ''/''])))
     = (True, None)
   \<and> cb demo_env demo_handler \<lparr>form = [(''state'', ''S''), (''code'', ''XYZ'')]\<rparr>
      (demo_world [''_state'' \<mapsto> VString ''S'', ''_redirect_to'' \<mapsto> VString ''/''])
     = (HandleError (OtherError ''invalid_grant''),
        \<lparr>store = (\<lambda>ns. Map.empty)(''sess-demo'' :=
            [''_state'' \<mapsto> VString ''S'', ''_redirect_to'' \<mapsto> VString ''/'']),
         calls = [CallExchange demo_provider ''XYZ'' AccessTypeOnline]\<rparr>)"
proof -
  let ?v = "[''_state'' \<mapsto> VString ''S'', ''_redirect_to'' \<mapsto> VString ''/'']
              :: (string \<times> nat) session_values"
  let ?r = "\<lparr>form = [(''state'', ''S''), (''code'', ''ABC'')]\<rparr>"
  let ?q = "\<lparr>form = [(''state'', ''S''), (''code'', ''XYZ'')]\<rparr>"
  let ?a = "if accessOffline demo_handler then AccessTypeOffline else AccessTypeOnline"
  have s: "?v ''_state'' = Some (VString ''S'')" and t: "?v ''_redirect_to'' = Some (VString ''/'')"
    by simp_all
  have f: "FormValue ?r ''state'' = ''S''" "FormValue ?q ''state'' = ''S''"
    and c: "FormValue ?r ''code'' = ''ABC''" "FormValue ?q ''code'' = ''XYZ''"
    by (simp_all add: FormValue_def)
  have x: "Exchange demo_env (provider demo_handler) (FormValue ?r ''code'') ?a
             = Inr (''token-ABC'', 3600)"
    and y: "Exchange demo_env (provider demo_handler) (FormValue ?q ''code'') ?a
             = Inl (OtherError ''invalid_grant'')"
    and z: "save_err demo_env (session_namespace demo_handler)
              (?v(''_token'' \<mapsto> VToken (''token-ABC'', 3600))) = None"
    and v: "Valid demo_env (''token-ABC'', 3600) = True"
    by (simp_all add: demo_defs)
  note ok = cb_completes_flow [OF demo_Session [of ?v] s t f(1) refl refl,
          where tok = "(''token-ABC'', 3600)", THEN conjunct2, rule_format, OF x z]
  note ko = cb_completes_flow [OF demo_Session [of ?v] s t f(2) refl refl,
          where err = "OtherError ''invalid_grant''", THEN conjunct1, rule_format, OF y]
  note 1 = ok [THEN conjunct1, unfolded demo_handler_fields c if_False demo_world_update append_Nil]
  note 2 = ok [THEN conjunct2, unfolded v]
  note 3 = ko [unfolded demo_handler_fields c if_False demo_world_update append_Nil]
  show ?thesis
    using 1 2 3 by (intro conjI)
qed


text \<open>
  A provider that answers with a token that has already run out: \<^verbatim>\<open>cb\<close> stores it
  and redirects, and \<^verbatim>\<open>LoggedIn\<close> is false afterwards.
\<close>

theorem cb_expired_token_counterexample:
  "fst (cb demo_env demo_handler \<lparr>form = [(''state'', ''S''), (''code'', ''BRIEF'')]\<rparr>
      (demo_world [''_state'' \<mapsto> VString ''S'', ''_redirect_to'' \<mapsto> VString ''/'']))
     = Redirect ''/''
   \<and> store (snd (cb demo_env demo_handler \<lparr>form = [(''state'', ''S''), (''code'', ''BRIEF'')]\<rparr>
      (demo_world [''_state'' \<mapsto> VString ''S'', ''_redirect_to'' \<mapsto> VString ''/''])))
        ''sess-demo'' ''_token'' = Some (VToken (''token-BRIEF'', 5))
   \<and> LoggedIn demo_env demo_handler
        (snd (cb demo_env demo_handler \<lparr>form = [(''state'', ''S''), (''code'', ''BRIEF'')]\<rparr>
           (demo_world [''_state'' \<mapsto> VString ''S'', ''_redirect_to'' \<mapsto> VString ''/''])))
     = (False, None)"
  by (simp add: cb_def do_Exchange_def Save_def LoggedIn_def Token_def token_def demo_defs)

subsection \<open>logout\<close>

lemma Logout_ok:
  assumes "load_err env (session_namespace h) = None"
    and "clear_err env (session_namespace h) = None"
  shows "Logout env h w =
           (None, w\<lparr>store := (store w)(session_namespace h := Map.empty),
                     calls := calls w @ [CallClear (session_namespace h)]\<rparr>)"
  using assms by (simp add: Logout_def Session_def Clear_def)

text \<open>
  Claim C5. Whatever the namespace held before, a \<^verbatim>\<open>logout\<close> whose session loads
  and whose \<^verbatim>\<open>Clear\<close> succeeds answers a redirect to \<^verbatim>\<open>redirect_to\<close>, or to
  \<^verbatim>\<open>DefaultLogoutURL\<close> when that is empty; its one call is \<^verbatim>\<open>Clear\<close>, after
  which the namespace holds no key at all; \<^verbatim>\<open>LoggedIn\<close> is false on the world that
  results; and a second \<^verbatim>\<open>logout\<close> on that world redirects to the same place and
  leaves the store as it is.
\<close>

theorem logout_clears:
  assumes "load_err env (session_namespace h) = None"
    and "clear_err env (session_namespace h) = None"
    and "redirect_to = (if FormValue r ''redirect_to'' = [] then DefaultLogoutURL (urls h)
                        else FormValue r ''redirect_to'')"
    and "w' = snd (logout env h r w)"
  shows "logout env h r w =
           (Redirect redirect_to,
            w\<lparr>store := (store w)(session_namespace h := Map.empty),
              calls := calls w @ [CallClear (session_namespace h)]\<rparr>)
       \<and> store w' (session_namespace h) = Map.empty
       \<and> LoggedIn env h w' = (False, None)
       \<and> fst (logout env h r w') = Redirect redirect_to
       \<and> store (snd (logout env h r w')) = store w'"
  using assms
  by (simp add: logout_def Logout_ok LoggedIn_def Token_def Session_def token_def)

theorem logout_clears_witness:
  "logout demo_env demo_handler \<lparr>form = []\<rparr>
      (demo_world [''_state'' \<mapsto> VString ''S'', ''_redirect_to'' \<mapsto> VString ''/home'',
                   ''_token'' \<mapsto> VToken (''token-ABC'', 3600)])
     = (Redirect ''/'',
        \<lparr>store = (\<lambda>ns. Map.empty)(''sess-demo'' := Map.empty),
         calls = [CallClear ''sess-demo'']\<rparr>)
   \<and> LoggedIn demo_env demo_handler
        (snd (logout demo_env demo_handler \<lparr>form = []\<rparr>
          (demo_world [''_state'' \<mapsto> VString ''S'', ''_redirect_to'' \<mapsto> VString ''/home'',
                   ''_token'' \<mapsto> VToken (''token-ABC'', 3600)])))
     = (False, None)
   \<and> fst (logout demo_env demo_handler \<lparr>form = []\<rparr>
        (snd (logout demo_env demo_handler \<lparr>form = []\<rparr>
          (demo_world [''_state'' \<mapsto> VString ''S'', ''_redirect_to'' \<mapsto> VString ''/home'',
                   ''_token'' \<mapsto> VToken (''token-ABC'', 3600)]))))
     = Redirect ''/''"
proof -
  let ?w = "demo_world [''_state'' \<mapsto> VString ''S'', ''_redirect_to'' \<mapsto> VString ''/home'',
                   ''_token'' \<mapsto> VToken (''token-ABC'', 3600)]"
  have a: "load_err demo_env (session_namespace demo_handler) = None"
    and b: "clear_err demo_env (session_namespace demo_handler) = None"
    by (simp_all add: demo_defs)
  have t: "(if FormValue \<lparr>form = []\<rparr> ''redirect_to'' = [] then DefaultLogoutURL (urls demo_handler)
            else FormValue \<lparr>form = []\<rparr> ''redirect_to'') = ''/''"
    by (simp add: demo_defs)
  note th = logout_clears [OF a b refl refl, of "\<lparr>form = []\<rparr>" ?w, unfolded t]
  note 1 = th [THEN conjunct1, unfolded demo_handler_fields demo_world_update append_Nil]
  note 2 = th [THEN conjunct2, THEN conjunct2, THEN conjunct1]
  note 3 = th [THEN conjunct2, THEN conjunct2, THEN conjunct2, THEN conjunct1]
  show ?thesis
    using 1 2 3 by (intro conjI)
qed

subsection \<open>The URL builders\<close>

lemma QueryEscape_keys:
  "QueryEscape ''redirect_to'' = ''redirect_to''"
  "QueryEscape ''force_prompt'' = ''force_prompt''"
  by (simp_all add: QueryEscape_def escape_byte_def shouldEscape_def)

lemma QueryEscape_Sprint_bool: "QueryEscape (Sprint_bool b) = Sprint_bool b"
  by (simp add: Sprint_bool_def QueryEscape_def escape_byte_def shouldEscape_def)

text \<open>
  Claim C8, with the order \<^verbatim>\<open>Encode\<close> gives. \<^verbatim>\<open>LoginURL\<close> and
  \<^verbatim>\<open>LogoutURL\<close> are functions of the handler's base URL and their arguments alone
  (no environment, no world): \<^verbatim>\<open>LoginURL\<close> is the base URL, then
  \<^verbatim>\<open>/login?force_prompt=\<close> with true or false, then \<^verbatim>\<open>&redirect_to=\<close> with the
  escaped target; \<^verbatim>\<open>LogoutURL\<close> is the base URL, then \<^verbatim>\<open>/logout?redirect_to=\<close>
  with the escaped target.
\<close>

theorem url_builders:
  "LoginURL h redirect_to force_prompt =
     handler_base_url h @ ''/login?force_prompt='' @ Sprint_bool force_prompt
       @ ''&redirect_to='' @ QueryEscape redirect_to
   \<and> LogoutURL h redirect_to =
     handler_base_url h @ ''/logout?redirect_to='' @ QueryEscape redirect_to"
  by (simp add: LoginURL_def LogoutURL_def Encode_def QueryEscape_keys QueryEscape_Sprint_bool)

theorem url_builders_witness:
  "LoginURL demo_handler ''/home page'' True
     = ''/auth/demo/login?force_prompt=true&redirect_to=%2Fhome+page''
   \<and> LogoutURL demo_handler ''/home page'' = ''/auth/demo/logout?redirect_to=%2Fhome+page''"
proof -
  have q: "QueryEscape ''/home page'' = ''%2Fhome+page''"
    by (simp add: QueryEscape_def escape_byte_def shouldEscape_def upperhex_def)
  show ?thesis
    using url_builders [of demo_handler "''/home page''" True]
    by (simp add: q demo_handler_fields Sprint_bool_def)
qed

text \<open>
  \<^verbatim>\<open>Encode\<close> sorts the keys, so \<^verbatim>\<open>force_prompt\<close> comes before
  \<^verbatim>\<open>redirect_to\<close>: the login URL is not the one with \<^verbatim>\<open>redirect_to\<close> first.
\<close>

theorem url_order_counterexample:
  "LoginURL demo_handler ''/home?x=1'' False
     = ''/auth/demo/login?force_prompt=false&redirect_to=%2Fhome%3Fx%3D1''
   \<and> LoginURL demo_handler ''/home?x=1'' False
     \<noteq> handler_base_url demo_handler @ ''/login?redirect_to='' @ QueryEscape ''/home?x=1''
         @ ''&force_prompt='' @ Sprint_bool False"
  by (simp add: demo_defs LoginURL_def Encode_def QueryEscape_def escape_byte_def
      shouldEscape_def Sprint_bool_def upperhex_def)

subsection \<open>Building the group\<close>

lemma TrimRight_idem: "TrimRight (TrimRight s c) c = TrimRight s c"
  by (simp add: TrimRight_def dropWhile_idem)

lemma TrimRight_no_suffix:
  "s = [] \<or> last s \<notin> set c \<Longrightarrow> TrimRight s c = s"
  by (cases s rule: rev_cases) (auto simp: TrimRight_def)

lemma loop_Inr_iff:
  "NewProviderGroup_loop ns base u ps hs = Inr hs' \<longleftrightarrow>
     (\<forall>p \<in> set ps. Name p \<noteq> []) \<and> distinct (map Name ps)
     \<and> (\<forall>p \<in> set ps. Name p \<notin> fst ` set hs)
     \<and> hs' = hs @ map (\<lambda>p. (Name p, NewProviderHandler p (ns @ ''-'' @ Name p)
                                  (base @ ''/'' @ Name p) u)) ps"
proof (induction ps arbitrary: hs)
  case Nil
  then show ?case by auto
next
  case (Cons p ps)
  have m: "map_of hs (Name p) \<noteq> None \<longleftrightarrow> Name p \<in> fst ` set hs"
    by (simp add: map_of_eq_None_iff)
  show ?case
    unfolding NewProviderGroup_loop.simps m
    by (auto simp: Cons.IH image_Un) (metis imageI)
qed

lemma loop_Inl_iff:
  "isl (NewProviderGroup_loop ns base u ps hs) \<longleftrightarrow>
     (\<exists>p \<in> set ps. Name p = []) \<or> \<not> distinct (map Name ps)
     \<or> (\<exists>p \<in> set ps. Name p \<in> fst ` set hs)"
proof -
  have "isl (NewProviderGroup_loop ns base u ps hs) \<longleftrightarrow>
          (\<forall>hs'. NewProviderGroup_loop ns base u ps hs \<noteq> Inr hs')"
    by (cases "NewProviderGroup_loop ns base u ps hs") auto
  then show ?thesis
    by (auto simp: loop_Inr_iff)
qed


lemma NewProviderGroup_Inr_iff:
  "NewProviderGroup ns base u ps = Inr g \<longleftrightarrow>
     (\<forall>p \<in> set ps. Name p \<noteq> []) \<and> distinct (map Name ps)
     \<and> g = \<lparr>handlers = map (\<lambda>p. (Name p, NewProviderHandler p (ns @ ''-'' @ Name p)
                                  (TrimRight base ''/'' @ ''/'' @ Name p) u)) ps,
             group_urls = u, group_base_url = TrimRight base ''/''\<rparr>"
proof -
  have "NewProviderGroup ns base u ps = Inr g \<longleftrightarrow>
          (\<exists>hs. NewProviderGroup_loop ns (TrimRight base ''/'') u ps [] = Inr hs
             \<and> g = \<lparr>handlers = hs, group_urls = u, group_base_url = TrimRight base ''/''\<rparr>)"
    by (auto simp: NewProviderGroup_def Let_def split: sum.splits)
  then show ?thesis
    by (auto simp: loop_Inr_iff)
qed

lemma NewProviderGroup_distinct:
  assumes "NewProviderGroup ns base u ps = Inr g"
  shows "distinct (map fst (handlers g))"
  using assms by (auto simp: NewProviderGroup_Inr_iff comp_def)

lemma map_of_new_handlers:
  assumes "distinct (map Name ps)" and "p \<in> set ps"
  shows "map_of (map (\<lambda>p. (Name p, f p)) ps) (Name p) = Some (f p)"
  using assms by (induction ps) (auto simp: image_iff)

lemma NewProviderGroup_lookup:
  assumes "NewProviderGroup ns base u ps = Inr g" and "p \<in> set ps"
  shows "map_of (handlers g) (Name p) =
           Some (NewProviderHandler p (ns @ ''-'' @ Name p)
                   (TrimRight base ''/'' @ ''/'' @ Name p) u)"
proof -
  let ?f = "\<lambda>p. NewProviderHandler p (ns @ ''-'' @ Name p)
                 (TrimRight base ''/'' @ ''/'' @ Name p) u"
  have d: "distinct (map Name ps)" and h: "handlers g = map (\<lambda>p. (Name p, ?f p)) ps"
    using assms(1) by (auto simp: NewProviderGroup_Inr_iff)
  show ?thesis
    unfolding h using d assms(2) by (rule map_of_new_handlers)
qed

lemma demo_group_built:
  "NewProviderGroup ''sess'' ''/auth/'' demo_urls [demo_provider, github_provider]
     = Inr demo_group"
  by (simp add: NewProviderGroup_def demo_group_def demo_handler_def demo_provider_def
      github_provider_def TrimRight_def)

lemma demo_group_distinct: "distinct (map fst (handlers demo_group))"
  by (simp add: demo_group_def)

lemma demo_group_lookup:
  "map_of (handlers demo_group) ''demo'' = Some demo_handler"
  "map_of (handlers demo_group) ''gitlab'' = None"
  by (simp_all add: demo_group_def)

text \<open>
  Claim C7, with the base URL the code computes. \<^verbatim>\<open>NewProviderGroup\<close> fails exactly
  when a provider has the empty name or two providers have the same name. When it
  succeeds, the group has one handler for each provider and no other, under distinct
  names; the handler of a provider named n is found under n, has that provider, the
  namespace prefix-n, and as base URL the group base URL without its trailing slashes,
  followed by /n, again without trailing slashes. That is the group base URL followed by
  /n whenever neither the group base URL nor n ends in a slash. The configuration errors
  are values of a type of their own, which no operation on requests returns.
\<close>

theorem NewProviderGroup_handlers:
  "(isl (NewProviderGroup ns base u ps) \<longleftrightarrow>
      (\<exists>p \<in> set ps. Name p = []) \<or> \<not> distinct (map Name ps))
   \<and> (NewProviderGroup ns base u ps = Inr g \<longrightarrow> p \<in> set ps \<longrightarrow>
        (\<exists>h. Handler g (Name p) = (Some h, True)
           \<and> provider h = p
           \<and> session_namespace h = ns @ ''-'' @ Name p
           \<and> handler_base_url h = TrimRight (TrimRight base ''/'' @ ''/'' @ Name p) ''/''
           \<and> ((base = [] \<or> last base \<noteq> CHR ''/'') \<and> last (Name p) \<noteq> CHR ''/'' \<longrightarrow>
                handler_base_url h = base @ ''/'' @ Name p)))
   \<and> (NewProviderGroup ns base u ps = Inr g \<longrightarrow>
        fst ` set (handlers g) = Name ` set ps \<and> distinct (map fst (handlers g)))"
proof (intro conjI impI)
  show "isl (NewProviderGroup ns base u ps) \<longleftrightarrow>
      (\<exists>p \<in> set ps. Name p = []) \<or> \<not> distinct (map Name ps)"
    using loop_Inl_iff [of ns "TrimRight base ''/''" u ps "[]"]
    by (auto simp: NewProviderGroup_def Let_def split: sum.splits)
next
  assume g: "NewProviderGroup ns base u ps = Inr g" and p: "p \<in> set ps"
  let ?h = "NewProviderHandler p (ns @ ''-'' @ Name p) (TrimRight base ''/'' @ ''/'' @ Name p) u"
  have n: "Name p \<noteq> []"
    using g p by (auto simp: NewProviderGroup_Inr_iff)
  have l: "map_of (handlers g) (Name p) = Some ?h"
    using g p by (rule NewProviderGroup_lookup)
  have t: "(base = [] \<or> last base \<noteq> CHR ''/'') \<and> last (Name p) \<noteq> CHR ''/'' \<longrightarrow>
             TrimRight (TrimRight base ''/'' @ ''/'' @ Name p) ''/'' = base @ ''/'' @ Name p"
    using n by (auto simp: TrimRight_no_suffix)
  show "\<exists>h. Handler g (Name p) = (Some h, True)
           \<and> provider h = p
           \<and> session_namespace h = ns @ ''-'' @ Name p
           \<and> handler_base_url h = TrimRight (TrimRight base ''/'' @ ''/'' @ Name p) ''/''
           \<and> ((base = [] \<or> last base \<noteq> CHR ''/'') \<and> last (Name p) \<noteq> CHR ''/'' \<longrightarrow>
                handler_base_url h = base @ ''/'' @ Name p)"
    using l t by (simp add: Handler_def NewProviderHandler_def Let_def)
next
  assume g: "NewProviderGroup ns base u ps = Inr g"
  then show "fst ` set (handlers g) = Name ` set ps"
    by (auto simp: NewProviderGroup_Inr_iff image_iff)
  show "distinct (map fst (handlers g))"
    using g by (rule NewProviderGroup_distinct)
qed

theorem NewProviderGroup_handlers_witness:
  "isl (NewProviderGroup ''sess'' ''/auth/'' demo_urls [demo_provider, demo_provider])
   \<and> isl (NewProviderGroup ''sess'' ''/auth/'' demo_urls
            [demo_provider, \<lparr>Name = [], Config = ''client-3''\<rparr>])
   \<and> \<not> isl (NewProviderGroup ''sess'' ''/auth/'' demo_urls [demo_provider, github_provider])
   \<and> (\<exists>h. Handler demo_group ''github'' = (Some h, True)
          \<and> provider h = github_provider
          \<and> session_namespace h = ''sess-github''
          \<and> handler_base_url h = ''/auth/github'')
   \<and> fst ` set (handlers demo_group) = {''demo'', ''github''}"
proof -
  let ?bad = "\<lparr>Name = [], Config = ''client-3''\<rparr>"
  have 1: "isl (NewProviderGroup ''sess'' ''/auth/'' demo_urls [demo_provider, demo_provider])"
    using NewProviderGroup_handlers [of "''sess''" "''/auth/''" demo_urls
        "[demo_provider, demo_provider]" demo_group demo_provider]
    by simp
  have 2: "isl (NewProviderGroup ''sess'' ''/auth/'' demo_urls [demo_provider, ?bad])"
    using NewProviderGroup_handlers [of "''sess''" "''/auth/''" demo_urls
        "[demo_provider, ?bad]" demo_group demo_provider]
    by simp
  note th = NewProviderGroup_handlers [of "''sess''" "''/auth/''" demo_urls
        "[demo_provider, github_provider]" demo_group github_provider]
  have 3: "\<not> isl (NewProviderGroup ''sess'' ''/auth/'' demo_urls
                    [demo_provider, github_provider])"
    using th by (simp add: demo_provider_def github_provider_def)
  have 4: "\<exists>h. Handler demo_group ''github'' = (Some h, True)
          \<and> provider h = github_provider
          \<and> session_namespace h = ''sess-github''
          \<and> handler_base_url h = ''/auth/github''"
    using th demo_group_built by (simp add: github_provider_def TrimRight_def)
  have 5: "fst ` set (handlers demo_group) = {''demo'', ''github''}"
    using th demo_group_built by (simp add: demo_provider_def github_provider_def)
  show ?thesis
    using 1 2 3 4 5 by blast
qed

text \<open>
  A group base URL with a trailing slash: the handler's base URL is not the concatenation
  of the group base URL, a slash and the name.
\<close>

theorem group_base_url_counterexample:
  "NewProviderGroup ''sess'' ''/auth/'' demo_urls [demo_provider, github_provider]
     = Inr demo_group
   \<and> map_option handler_base_url (fst (Handler demo_group ''demo'')) = Some ''/auth/demo''
   \<and> map_option handler_base_url (fst (Handler demo_group ''demo''))
       \<noteq> Some (''/auth/'' @ ''/'' @ ''demo'')"
  by (simp add: demo_group_built Handler_def demo_group_lookup demo_handler_fields)

subsection \<open>Looking a provider up\<close>

text \<open>
  Claim C9, for what the group's operations return. For a name with a handler in the
  group, \<^verbatim>\<open>Handler\<close> returns that handler and true, and the group's
  \<^verbatim>\<open>LoginURL\<close> and \<^verbatim>\<open>LogoutURL\<close> return what the handler's own return. For a
  name without one, \<^verbatim>\<open>Handler\<close> returns nil and false.
\<close>

theorem group_passthrough:
  "(map_of (handlers g) n = Some h \<longrightarrow>
      Handler g n = (Some h, True)
      \<and> group_LoginURL g n redirect_to force_prompt = Inr (LoginURL h redirect_to force_prompt)
      \<and> group_LogoutURL g n redirect_to = Inr (LogoutURL h redirect_to))
   \<and> (map_of (handlers g) n = None \<longrightarrow> Handler g n = (None, False))"
  by (simp add: Handler_def group_LoginURL_def group_LogoutURL_def)

theorem group_passthrough_witness:
  "Handler demo_group ''demo'' = (Some demo_handler, True)
   \<and> group_LoginURL demo_group ''demo'' ''/home'' True
       = Inr (LoginURL demo_handler ''/home'' True)
   \<and> group_LogoutURL demo_group ''demo'' ''/home'' = Inr (LogoutURL demo_handler ''/home'')
   \<and> Handler demo_group ''gitlab'' = (None, False)"
  using group_passthrough [of demo_group "''demo''" demo_handler "''/home''" True]
    group_passthrough [of demo_group "''gitlab''" demo_handler "''/home''" True]
    demo_group_lookup
  by simp

text \<open>
  For a name without a handler the group's \<^verbatim>\<open>LoginURL\<close> and \<^verbatim>\<open>LogoutURL\<close> do
  not report that the name is unknown: they panic.
\<close>

theorem group_url_unknown_counterexample:
  "group_LoginURL demo_group ''gitlab'' ''/home'' False = Inl NilPointerDereference
   \<and> group_LogoutURL demo_group ''gitlab'' ''/home'' = Inl NilPointerDereference"
  by (simp add: group_LoginURL_def group_LogoutURL_def demo_group_lookup)

subsection \<open>The tokens of the group\<close>

lemma Token_Some_iff:
  "Token env h w = Inr (Some t) \<longleftrightarrow>
     load_err env (session_namespace h) = None
     \<and> store w (session_namespace h) ''_token'' = Some (VToken t) \<and> Valid env t"
  by (auto simp: Token_def Session_def token_Some_iff split: option.splits)

lemma Token_Inl_iff:
  "Token env h w = Inl e \<longleftrightarrow> load_err env (session_namespace h) = Some e"
  by (auto simp: Token_def Session_def split: option.splits)

lemma Tokens_loop_errs:
  "snd (Tokens_loop env w hs rv errs) =
     errs @ List.map_filter (\<lambda>(n, h). load_err env (session_namespace h)) hs"
proof (induction hs arbitrary: rv errs)
  case Nil
  then show ?case by (simp add: List.map_filter_simps)
next
  case (Cons a hs)
  obtain n h where a: "a = (n, h)" by (cases a)
  show ?case
  proof (cases "Token env h w")
    case (Inl e)
    then have "load_err env (session_namespace h) = Some e"
      by (simp add: Token_Inl_iff)
    then show ?thesis
      using Inl by (simp add: a Cons.IH Add_def List.map_filter_simps)
  next
    case (Inr t)
    then have "load_err env (session_namespace h) = None"
      by (auto simp: Token_def Session_def split: option.splits)
    then show ?thesis
      using Inr by (cases t) (simp_all add: a Cons.IH Add_def List.map_filter_simps)
  qed
qed

lemma Tokens_loop_map:
  assumes "distinct (map fst hs)"
  shows "map_of (fst (Tokens_loop env w hs rv errs)) n =
     (case map_of hs n of
        None \<Rightarrow> map_of rv n
      | Some h \<Rightarrow> (case Token env h w of Inr (Some t) \<Rightarrow> Some t | _ \<Rightarrow> map_of rv n))"
  using assms
proof (induction hs arbitrary: rv errs)
  case Nil
  then show ?case by simp
next
  case (Cons a hs)
  obtain m h where a: "a = (m, h)" by (cases a)
  have d: "distinct (map fst hs)" and m: "map_of hs m = None"
    using Cons.prems by (auto simp: a map_of_eq_None_iff)
  show ?case
  proof (cases "Token env h w")
    case (Inl e)
    then show ?thesis
      using m by (auto simp: a Cons.IH [OF d] split: option.splits)
  next
    case (Inr t)
    then show ?thesis
      using m by (cases t) (auto simp: a Cons.IH [OF d] update_conv' split: option.splits sum.splits)
  qed
qed

lemma Tokens_loop_distinct:
  assumes "distinct (map fst rv)"
  shows "distinct (map fst (fst (Tokens_loop env w hs rv errs)))"
  using assms
proof (induction hs arbitrary: rv errs)
  case Nil
  then show ?case by simp
next
  case (Cons a hs)
  obtain m h where a: "a = (m, h)" by (cases a)
  show ?case
    using Cons.prems
    by (auto simp: a distinct_update intro!: Cons.IH split: sum.splits option.splits)
qed

text \<open>
  Claim C6. For a group whose handlers have distinct names (as every group that
  \<^verbatim>\<open>NewProviderGroup\<close> builds has), \<^verbatim>\<open>Tokens\<close> returns a map with one entry per
  key, in which a name n has the token t exactly when the handler registered under n
  loads its session, and the session holds t under \<^verbatim>\<open>_token\<close>, and t is valid.
  Together with the map it returns \<^verbatim>\<open>Finalize\<close> of the load errors of all handlers
  whose session does not load, so a failing handler neither hides the tokens of the
  others nor stops the loop. The group's \<^verbatim>\<open>LoggedIn\<close> returns whether that map has
  an entry, with the same error.
\<close>

theorem Tokens_result:
  assumes "distinct (map fst (handlers g))"
  shows "(map_of (fst (Tokens env g w)) n = Some t \<longleftrightarrow>
           (\<exists>h. map_of (handlers g) n = Some h
              \<and> load_err env (session_namespace h) = None
              \<and> store w (session_namespace h) ''_token'' = Some (VToken t) \<and> Valid env t))
       \<and> distinct (map fst (fst (Tokens env g w)))
       \<and> snd (Tokens env g w) =
           Finalize (List.map_filter (\<lambda>(n, h). load_err env (session_namespace h)) (handlers g))
       \<and> group_LoggedIn env g w = (fst (Tokens env g w) \<noteq> [], snd (Tokens env g w))"
proof -
  have f: "fst (Tokens env g w) = fst (Tokens_loop env w (handlers g) [] [])"
    and s: "snd (Tokens env g w) = Finalize (snd (Tokens_loop env w (handlers g) [] []))"
    by (simp_all add: Tokens_def split: prod.splits)
  have 1: "map_of (fst (Tokens env g w)) n = Some t \<longleftrightarrow>
           (\<exists>h. map_of (handlers g) n = Some h
              \<and> load_err env (session_namespace h) = None
              \<and> store w (session_namespace h) ''_token'' = Some (VToken t) \<and> Valid env t)"
    unfolding f Tokens_loop_map [OF assms]
    by (auto simp: Token_Some_iff [symmetric] split: option.splits sum.splits)
  have 2: "distinct (map fst (fst (Tokens env g w)))"
    unfolding f by (rule Tokens_loop_distinct) simp
  have 3: "snd (Tokens env g w) =
           Finalize (List.map_filter (\<lambda>(n, h). load_err env (session_namespace h)) (handlers g))"
    unfolding s Tokens_loop_errs by simp
  have 4: "group_LoggedIn env g w = (fst (Tokens env g w) \<noteq> [], snd (Tokens env g w))"
    by (simp add: group_LoggedIn_def split: prod.splits)
  show ?thesis
    using 1 2 3 4 by blast
qed

theorem Tokens_result_witness:
  "map_of (fst (Tokens demo_env_down demo_group group_world)) ''demo''
     = Some (''token-ABC'', 3600)
   \<and> distinct (map fst (fst (Tokens demo_env_down demo_group group_world)))
   \<and> snd (Tokens demo_env_down demo_group group_world)
     = Some (OtherError ''session store down'')
   \<and> group_LoggedIn demo_env_down demo_group group_world
     = (True, Some (OtherError ''session store down''))"
proof -
  note th = Tokens_result [OF demo_group_distinct, of demo_env_down group_world "''demo''"
      "(''token-ABC'', 3600)"]
  have e: "\<exists>h. map_of (handlers demo_group) ''demo'' = Some h
              \<and> load_err demo_env_down (session_namespace h) = None
              \<and> store group_world (session_namespace h) ''_token''
                   = Some (VToken (''token-ABC'', 3600))
              \<and> Valid demo_env_down (''token-ABC'', 3600)"
    by (simp add: demo_group_lookup demo_env_down_def group_world_def demo_defs)
  have 1: "map_of (fst (Tokens demo_env_down demo_group group_world)) ''demo''
     = Some (''token-ABC'', 3600)"
    using th e by blast
  have 2: "distinct (map fst (fst (Tokens demo_env_down demo_group group_world)))"
    using th by blast
  have f: "Finalize (List.map_filter (\<lambda>(n, h). load_err demo_env_down (session_namespace h))
             (handlers demo_group)) = Some (OtherError ''session store down'')"
    by (simp add: demo_group_def demo_env_down_def demo_defs List.map_filter_simps Finalize_def)
  have 3: "snd (Tokens demo_env_down demo_group group_world)
     = Some (OtherError ''session store down'')"
    using th f by simp
  have "fst (Tokens demo_env_down demo_group group_world) \<noteq> []"
    using 1 by auto
  then have 4: "group_LoggedIn demo_env_down demo_group group_world
     = (True, Some (OtherError ''session store down''))"
    using th 3 by simp
  show ?thesis
    using 1 2 3 4 by blast
qed

end
